theory Spec2Isabelle
  imports Complex_Main
begin

section \<open>The discrete off-policy sampler (catalyst/rl/offpolicy/discrete_sampler.py)\<close>

text \<open>
  A shallow embedding of class \<open>Sampler\<close>. Mutation of \<open>self\<close> is explicit state passing
  on the record \<open>sampler\<close>; the state of Python's \<open>random\<close> module, the state of
  \<open>numpy.random\<close>, the environment's internal state, the number of readings of the clock
  and the lines written by \<open>print\<close> are the record \<open>world\<close>. Every raise is a value
  \<open>Inl e\<close> of \<open>error + 'a\<close>; the two \<open>while\<close> loops, which need not terminate, are partial
  functions into \<open>option\<close> (\<open>None\<close>: the loop never returns).

  Libraries and collaborators outside the file (the \<open>random\<close> and \<open>numpy.random\<close> modules,
  \<open>time.time\<close>, the environment, \<open>copy.deepcopy\<close> and the move of the critic to
  the device, the forward pass of the critic network, the \<open>SummaryWriter\<close>, the
  serialization codec, \<open>UtilsFactory.load_checkpoint\<close>, the rounding of the arithmetic on
  Python's numbers) are the fields of the record \<open>collaborators\<close>, a parameter of every
  operation that calls them.

  Assumptions on the collaborators: the environment's \<open>reset\<close> and \<open>step\<close>, the forward
  pass of the critic and \<open>to_tensor\<close> return normally.
\<close>

subsection \<open>Errors\<close>

datatype error =
    NotImplementedError
  | ZeroDivisionError
  | IndexError
  | KeyError
  | ValueError
  | RuntimeError
  | BufferOverflowError
  | IncompleteEpisodeError
  | OtherError string

subsection \<open>Data\<close>

type_synonym obs = "real list"
type_synonym blob = string
type_synonym state_dict = "(string \<times> real list) list"
type_synonym info = "(string \<times> real) list"
type_synonym episode = "obs list \<times> int list \<times> real list \<times> bool list"

definition SEED_RANGE :: int where
  "SEED_RANGE = 2 ^ 32 - 2"

text \<open>
  The critic is a torch module: a named-parameter mapping and the training flag that
  \<open>eval()\<close> clears. A mapping from names to tensors is a list of pairs with distinct
  names, and a tensor is the list of its entries: its shape is its length.
  \<open>load_state_dict\<close> with \<open>strict=True\<close> (the default, used by \<open>load_critic_weights\<close>)
  raises \<open>RuntimeError\<close> on a missing name, on an unexpected name and on a tensor whose
  shape differs from the shape of the module's parameter of that name, and otherwise takes
  every value from the given mapping. A list that repeats a name stands for no mapping and
  is refused.
\<close>

record critic =
  state_dict :: state_dict
  training :: bool

definition load_state_dict :: "critic \<Rightarrow> state_dict \<Rightarrow> error + critic" where
  "load_state_dict c weights =
     (if distinct (map fst weights)
         \<and> set (map fst weights) = set (map fst (state_dict c))
         \<and> list_all (\<lambda>(k, v). map_option length (map_of (state_dict c) k) = Some (length v))
              weights
      then Inr (c\<lparr>state_dict := weights\<rparr>)
      else Inl RuntimeError)"

definition eval_mode :: "critic \<Rightarrow> critic" where
  "eval_mode c = c\<lparr>training := False\<rparr>"

text \<open>
  The redis server behind the handle \<open>redis_server\<close>: a key-value store (\<open>get\<close>) and named
  lists (\<open>rpush\<close> appends at the tail).
\<close>

record redis =
  kv :: "string \<Rightarrow> blob option"
  lists :: "string \<Rightarrow> blob list"

definition redis_get :: "redis \<Rightarrow> string \<Rightarrow> blob option" where
  "redis_get r key = kv r key"

definition redis_rpush :: "redis \<Rightarrow> string \<Rightarrow> blob \<Rightarrow> redis" where
  "redis_rpush r key v = r\<lparr>lists := (lists r)(key := lists r key @ [v])\<rparr>"

subsection \<open>Floating-point rounding\<close>





subsection \<open>The episode buffer\<close>

text \<open>
  Modelled from the spec: class \<open>SamplerBuffer\<close> of \<open>catalyst.rl.offpolicy.utils\<close> is not
  among the sources. Section 4.3 of the spec gives its behaviour: a bounded store of one
  episode; \<open>reset\<close> (\<open>init_with_observation\<close>) discards the contents and puts the
  initial observation in frame 0; \<open>push\<close> (\<open>push_transition\<close>) appends one transition and
  fails with \<open>BufferOverflowError\<close> beyond the capacity; \<open>state\<close> (\<open>get_state\<close>) returns the
  last \<open>history_len\<close> observations, left-padded with the earliest one;
  \<open>completeEpisode\<close> (\<open>get_complete_episode\<close>) returns four sequences of equal length and
  fails with \<open>IncompleteEpisodeError\<close> unless the last \<open>done\<close> is true.
\<close>

record buffer =
  capacity :: int
  frames :: "obs list"
  actions :: "int list"
  rewards :: "real list"
  dones :: "bool list"

definition SamplerBuffer :: "int \<Rightarrow> buffer" where
  "SamplerBuffer c = \<lparr>capacity = c, frames = [], actions = [], rewards = [], dones = []\<rparr>"

definition init_with_observation :: "buffer \<Rightarrow> obs \<Rightarrow> buffer" where
  "init_with_observation b ob = b\<lparr>frames := [ob], actions := [], rewards := [], dones := []\<rparr>"

definition push_transition :: "buffer \<Rightarrow> obs \<times> int \<times> real \<times> bool \<Rightarrow> error + buffer" where
  "push_transition b t =
     (case t of (next_obs, action, reward, done) \<Rightarrow>
        if capacity b < int (length (actions b)) + 1 then Inl BufferOverflowError
        else Inr (b\<lparr>frames := frames b @ [next_obs], actions := actions b @ [action],
                    rewards := rewards b @ [reward], dones := dones b @ [done]\<rparr>))"

definition get_state :: "buffer \<Rightarrow> int \<Rightarrow> obs list" where
  "get_state b history_len =
     (case frames b of
        [] \<Rightarrow> []
      | f # fs \<Rightarrow>
          replicate (nat history_len - length (f # fs)) f
            @ drop (length (f # fs) - nat history_len) (f # fs))"

definition get_complete_episode :: "buffer \<Rightarrow> error + episode" where
  "get_complete_episode b =
     (if dones b \<noteq> [] \<and> last (dones b)
      then Inr (take (length (actions b)) (frames b), actions b, rewards b, dones b)
      else Inl IncompleteEpisodeError)"

subsection \<open>The sampler, the world and the collaborators\<close>

text \<open>
  The attributes of \<open>self\<close>. \<open>self_seed\<close> is the attribute \<open>_seed\<close>; \<open>redis_server\<close> is
  \<open>None\<close> or the server behind the handle; \<open>resume\<close> is \<open>None\<close> or the checkpoint path;
  \<open>logger\<close> is \<open>None\<close> or the scalars (tag, value, step) written to the
  \<open>SummaryWriter\<close> so far.
\<close>

record sampler =
  self_seed :: int
  sampler_id :: int
  critic :: critic
  redis_server :: "redis option"
  redis_prefix :: string
  resume :: "string option"
  episode_limit :: int
  force_store :: bool
  num_actions :: int
  history_len :: int
  buffer_size :: int
  weights_sync_period :: int
  episode_index :: int
  eps :: real
  eps_final :: real
  eps_delta :: real
  infer :: bool
  seeds :: "int list option"
  logger :: "(string \<times> real \<times> int) list option"
  buffer :: buffer

text \<open>One line written by the \<open>print\<close> of \<open>run\<close>, after each episode.\<close>

record report =
  rep_episode_index :: int
  rep_steps :: nat
  rep_reward :: real
  rep_reward_orig :: real
  rep_seed :: int

text \<open>
  \<open>py_random\<close> is the state of the generator behind \<open>random.randrange\<close> and
  \<open>random.choice\<close>; \<open>np_random\<close> is the state of the generator behind \<open>np.random.rand\<close>
  and \<open>np.random.randint\<close>. They are two generators; \<open>set_global_seeds\<close> seeds both.
\<close>

record ('g, 'n, 'e) world =
  py_random :: 'g
  np_random :: 'n
  env_st :: 'e
  ticks :: nat
  stdout :: "report list"

text \<open>
  \<open>random_seed i\<close> and \<open>np_random_seed i\<close> are the states of the two generators after
  \<open>random.seed(i)\<close> and \<open>np.random.seed(i)\<close>. \<open>time_time n\<close> is what \<open>time.time()\<close>
  returns at its reading number \<open>n\<close>; the world counts the readings. \<open>rnd\<close> is the
  rounding of the result of one arithmetic operation on the numbers that the sampler
  computes with: \<open>float64\<close> when they are \<open>float\<close>s, the identity when they are
  \<open>fractions.Fraction\<close>s. The environment may draw from both generators.
  \<open>observation_shape\<close> is the attribute of that name of the environment,
  \<open>prepare_critic\<close> is \<open>copy.deepcopy(critic).to(device)\<close>, and
  \<open>summary_writer logdir mode id\<close> creates the directory of the log and the
  \<open>SummaryWriter\<close> on it.
\<close>

record ('g, 'n, 'e) collaborators =
  random_seed :: "int \<Rightarrow> 'g"
  np_random_seed :: "int \<Rightarrow> 'n"
  randrange :: "int \<Rightarrow> 'g \<Rightarrow> int \<times> 'g"
  np_random_rand :: "'n \<Rightarrow> real \<times> 'n"
  np_random_randint :: "int \<Rightarrow> 'n \<Rightarrow> int \<times> 'n"
  time_time :: "nat \<Rightarrow> real"
  rnd :: "real \<Rightarrow> real"
  env_reset :: "'g \<times> 'n \<times> 'e \<Rightarrow> obs \<times> 'g \<times> 'n \<times> 'e"
  env_step :: "int \<Rightarrow> 'g \<times> 'n \<times> 'e \<Rightarrow> (obs \<times> real \<times> bool \<times> info) \<times> 'g \<times> 'n \<times> 'e"
  observation_shape :: "error + nat list"
  prepare_critic :: "critic \<Rightarrow> error + critic"
  summary_writer :: "string \<Rightarrow> string \<Rightarrow> int \<Rightarrow> error + unit"
  critic_forward :: "critic \<Rightarrow> obs list \<Rightarrow> real list"
  to_tensor :: "real list \<Rightarrow> real list"
  serialize :: "episode \<Rightarrow> blob"
  deserialize :: "blob option \<Rightarrow> error + (string \<times> real list) list"
  load_checkpoint :: "string \<Rightarrow> error + (string \<times> state_dict) list"

text \<open>The arguments of the constructor (without \<open>env\<close>, a collaborator).\<close>

record config =
  cfg_critic :: critic
  cfg_id :: int
  cfg_num_actions :: int
  cfg_logdir :: "string option"
  cfg_redis_server :: "redis option"
  cfg_redis_prefix :: "string option"
  cfg_buffer_size :: int
  cfg_history_len :: int
  cfg_weights_sync_period :: int
  cfg_mode :: string
  cfg_resume :: "string option"
  cfg_exploration_eps_init :: real
  cfg_exploration_eps_final :: real
  cfg_exploration_annealing_steps :: int
  cfg_seeds :: "int list option"
  cfg_episode_limit :: "int option"
  cfg_force_store :: bool

subsection \<open>Seeding the generators\<close>

text \<open>
  Modelled from the spec: \<open>set_global_seeds\<close> of \<open>catalyst.utils.misc\<close> is not among the
  sources. The spec calls it the application of a seed to the shared random source: it
  passes the seed to \<open>random.seed\<close> and to \<open>np.random.seed\<close>, and \<open>np.random.seed\<close>
  raises \<open>ValueError\<close> unless the seed lies between 0 and \<open>2^32 - 1\<close>.
\<close>

definition set_global_seeds :: "('g, 'n, 'e) collaborators \<Rightarrow> int \<Rightarrow> error + 'g \<times> 'n" where
  "set_global_seeds C seed =
     (if 0 \<le> seed \<and> seed < 2 ^ 32 then Inr (random_seed C seed, np_random_seed C seed)
      else Inl ValueError)"

subsection \<open>The constructor\<close>

text \<open>
  \<open>redis_prefix or ""\<close> and \<open>episode_limit or int(2**32 - 2)\<close>: \<open>None\<close>, the empty string
  and 0 are falsy. \<open>new_sampler\<close> is the assignment of the attributes, given the copy of
  the critic and the logger. The subtraction and the division of line 83 are rounded.
\<close>

definition new_sampler ::
  "('g, 'n, 'e) collaborators \<Rightarrow> config \<Rightarrow> critic \<Rightarrow> (string \<times> real \<times> int) list option
     \<Rightarrow> sampler" where
  "new_sampler C cfg c lg =
     \<lparr>self_seed = 42 + cfg_id cfg,
      sampler_id = cfg_id cfg,
      critic = c,
      redis_server = cfg_redis_server cfg,
      redis_prefix = (case cfg_redis_prefix cfg of None \<Rightarrow> [] | Some p \<Rightarrow> p),
      resume = cfg_resume cfg,
      episode_limit =
        (case cfg_episode_limit cfg of
           None \<Rightarrow> 2 ^ 32 - 2
         | Some n \<Rightarrow> if n = 0 then 2 ^ 32 - 2 else n),
      force_store = cfg_force_store cfg,
      num_actions = cfg_num_actions cfg,
      history_len = cfg_history_len cfg,
      buffer_size = cfg_buffer_size cfg,
      weights_sync_period = cfg_weights_sync_period cfg,
      episode_index = 0,
      eps = cfg_exploration_eps_init cfg,
      eps_final = cfg_exploration_eps_final cfg,
      eps_delta =
        rnd C (rnd C (cfg_exploration_eps_init cfg - cfg_exploration_eps_final cfg)
                / real_of_int (cfg_exploration_annealing_steps cfg)),
      infer = (cfg_mode cfg = ''infer''),
      seeds = cfg_seeds cfg,
      logger = lg,
      buffer = SamplerBuffer (cfg_buffer_size cfg)\<rparr>"

text \<open>
  \<open>__init__\<close>, in the order of its statements: the seeding of line 62, the copy of the
  critic of line 66, the division of line 83, which raises \<open>ZeroDivisionError\<close> when
  \<open>exploration_annealing_steps\<close> is 0, the logger of lines 88-94 and the buffer of lines
  96-101, which reads \<open>env.observation_shape\<close>.
\<close>

definition Sampler_init ::
  "('g, 'n, 'e) collaborators \<Rightarrow> config \<Rightarrow> ('g, 'n, 'e) world
     \<Rightarrow> error + sampler \<times> ('g, 'n, 'e) world" where
  "Sampler_init C cfg w =
     (case set_global_seeds C (42 + cfg_id cfg) of
        Inl e \<Rightarrow> Inl e
      | Inr (g, n) \<Rightarrow>
          (case prepare_critic C (cfg_critic cfg) of
             Inl e \<Rightarrow> Inl e
           | Inr c \<Rightarrow>
               if cfg_exploration_annealing_steps cfg = 0 then Inl ZeroDivisionError
               else
                 (case (case cfg_logdir cfg of
                          None \<Rightarrow> Inr None
                        | Some d \<Rightarrow>
                            map_sum id (\<lambda>u. Some [])
                              (summary_writer C d (cfg_mode cfg) (cfg_id cfg))) of
                    Inl e \<Rightarrow> Inl e
                  | Inr lg \<Rightarrow>
                      (case observation_shape C of
                         Inl e \<Rightarrow> Inl e
                       | Inr shape \<Rightarrow>
                           Inr (new_sampler C cfg c lg,
                                w\<lparr>py_random := g, np_random := n\<rparr>)))))"

subsection \<open>Weights\<close>

definition load_critic_weights ::
  "('g, 'n, 'e) collaborators \<Rightarrow> sampler \<Rightarrow> error + sampler" where
  "load_critic_weights C self =
     (case resume self of
        Some path \<Rightarrow>
          (case load_checkpoint C path of
             Inl e \<Rightarrow> Inl e
           | Inr checkpoint \<Rightarrow>
               (case map_of checkpoint ''critic_state_dict'' of
                  None \<Rightarrow> Inl KeyError
                | Some weights \<Rightarrow>
                    (case load_state_dict (critic self) weights of
                       Inl e \<Rightarrow> Inl e
                     | Inr c \<Rightarrow> Inr (self\<lparr>critic := eval_mode c\<rparr>))))
      | None \<Rightarrow>
          (case redis_server self of
             Some r \<Rightarrow>
               (case deserialize C (redis_get r (redis_prefix self @ ''_critic_weights'')) of
                  Inl e \<Rightarrow> Inl e
                | Inr weights \<Rightarrow>
                    (case load_state_dict (critic self)
                            (map (\<lambda>(k, v). (k, to_tensor C v)) weights) of
                       Inl e \<Rightarrow> Inl e
                     | Inr c \<Rightarrow> Inr (self\<lparr>critic := eval_mode c\<rparr>)))
           | None \<Rightarrow> Inl NotImplementedError))"

subsection \<open>Storing an episode\<close>

definition store_episode :: "('g, 'n, 'e) collaborators \<Rightarrow> sampler \<Rightarrow> error + sampler" where
  "store_episode C self =
     (case redis_server self of
        None \<Rightarrow> Inr self
      | Some r \<Rightarrow>
          (case get_complete_episode (buffer self) of
             Inl e \<Rightarrow> Inl e
           | Inr episode \<Rightarrow>
               Inr (self\<lparr>redis_server :=
                      Some (redis_rpush r ''trajectories'' (serialize C episode))\<rparr>)))"

subsection \<open>Acting\<close>

text \<open>\<open>np.argmax\<close>: the index of the first maximum.\<close>

fun argmax :: "real list \<Rightarrow> nat" where
  "argmax [] = 0"
| "argmax [q] = 0"
| "argmax (q # qs) = (let j = argmax qs in if qs ! j \<le> q then 0 else Suc j)"

text \<open>
  \<open>act\<close>: the greedy action, replaced by a uniformly drawn one when
  \<open>np.random.rand() < self.eps\<close>. \<open>np.argmax\<close> of an empty array and
  \<open>np.random.randint\<close> of a bound that is not positive raise \<open>ValueError\<close>.
\<close>

definition act ::
  "('g, 'n, 'e) collaborators \<Rightarrow> sampler \<Rightarrow> obs list \<Rightarrow> 'n \<Rightarrow> error + int \<times> 'n" where
  "act C self state n =
     (let q_values = critic_forward C (critic self) state in
      if q_values = [] then Inl ValueError
      else
        (case np_random_rand C n of
           (u, n1) \<Rightarrow>
             if u < eps self then
               (if num_actions self \<le> 0 then Inl ValueError
                else Inr (np_random_randint C (num_actions self) n1))
             else Inr (int (argmax q_values), n1)))"

subsection \<open>One environment step\<close>

text \<open>
  Line 181, the exploration decay: \<open>self.eps = max(self.eps - self.eps_delta, self.eps_final)\<close>.
  The subtraction is rounded; \<open>max\<close> returns one of its arguments.
\<close>

definition decay_eps :: "('g, 'n, 'e) collaborators \<Rightarrow> sampler \<Rightarrow> sampler" where
  "decay_eps C self = self\<lparr>eps := max (rnd C (eps self - eps_delta self)) (eps_final self)\<rparr>"

text \<open>The variables local to \<open>run\<close> that live through an episode.\<close>

record locals =
  loc_seed :: int
  loc_start_time :: real
  loc_step_index :: nat
  loc_episode_reward :: real
  loc_episode_reward_orig :: real
  loc_done :: bool

text \<open>The body of the inner loop, lines 179-188.\<close>

definition step_body ::
  "('g, 'n, 'e) collaborators \<Rightarrow> sampler \<times> ('g, 'n, 'e) world \<times> locals
     \<Rightarrow> error + sampler \<times> ('g, 'n, 'e) world \<times> locals" where
  "step_body C st =
     (case st of (self, w, v) \<Rightarrow>
        (case act C self (get_state (buffer self) (history_len self)) (np_random w) of
           Inl e \<Rightarrow> Inl e
         | Inr (action, n1) \<Rightarrow>
             (case env_step C action (py_random w, n1, env_st w) of
                ((next_obs, reward, done, info), g2, n2, e2) \<Rightarrow>
                  (case push_transition (buffer (decay_eps C self))
                          (next_obs, action, reward, done) of
                     Inl e \<Rightarrow> Inl e
                   | Inr b \<Rightarrow>
                       Inr ((decay_eps C self)\<lparr>buffer := b\<rparr>,
                            w\<lparr>py_random := g2, np_random := n2, env_st := e2\<rparr>,
                            v\<lparr>loc_step_index := loc_step_index v + 1,
                              loc_episode_reward := rnd C (loc_episode_reward v + reward),
                              loc_episode_reward_orig :=
                                rnd C (loc_episode_reward_orig v
                                  + (case map_of info ''reward_origin'' of
                                       None \<Rightarrow> 0
                                     | Some x \<Rightarrow> x)),
                              loc_done := done\<rparr>)))))"

text \<open>The inner loop \<open>while not done\<close>, lines 178-188.\<close>

partial_function (option) steps_loop ::
  "('g, 'n, 'e) collaborators \<Rightarrow> sampler \<times> ('g, 'n, 'e) world \<times> locals
     \<Rightarrow> (error + sampler \<times> ('g, 'n, 'e) world \<times> locals) option" where
  "steps_loop C st =
     (if loc_done (snd (snd st)) then Some (Inr st)
      else
        (case step_body C st of
           Inl e \<Rightarrow> Some (Inl e)
         | Inr st' \<Rightarrow> steps_loop C st'))"

subsection \<open>Seeding and resetting\<close>

text \<open>
  \<open>random.choice(seq)\<close> is \<open>seq[randbelow(len(seq))]\<close> and raises \<open>IndexError\<close> on an
  empty sequence.
\<close>

definition choice ::
  "('g, 'n, 'e) collaborators \<Rightarrow> int list \<Rightarrow> 'g \<Rightarrow> error + int \<times> 'g" where
  "choice C xs g =
     (if xs = [] then Inl IndexError
      else
        (case randrange C (int (length xs)) g of
           (i, g') \<Rightarrow>
             if 0 \<le> i \<and> i < int (length xs) then Inr (xs ! nat i, g')
             else Inl IndexError))"

text \<open>
  The seeding of lines 163-168 and 243-249 (the same statements at both places), for the
  attribute \<open>_seed\<close> and the pool \<open>seeds\<close>, from the state \<open>g\<close> of \<open>random\<close>: the draw
  of line 163, the seeding of line 164 with \<open>_seed\<close> plus the draw, the draw or the pick
  of lines 165-167 and the seeding of line 168. The result is the episode seed and the
  states of the two generators after the second \<open>set_global_seeds\<close>.
\<close>

definition reseed ::
  "('g, 'n, 'e) collaborators \<Rightarrow> int \<Rightarrow> int list option \<Rightarrow> 'g \<Rightarrow> error + int \<times> 'g \<times> 'n" where
  "reseed C base pool g =
     (case randrange C SEED_RANGE g of
        (r, g0) \<Rightarrow>
          (case set_global_seeds C (base + r) of
             Inl e \<Rightarrow> Inl e
           | Inr (g1, n1) \<Rightarrow>
               (case (case pool of
                        None \<Rightarrow> Inr (randrange C SEED_RANGE g1)
                      | Some xs \<Rightarrow> choice C xs g1) of
                  Inl e \<Rightarrow> Inl e
                | Inr (seed, g1') \<Rightarrow>
                    (case set_global_seeds C seed of
                       Inl e \<Rightarrow> Inl e
                     | Inr (g2, n2) \<Rightarrow> Inr (seed, g2, n2)))))"

text \<open>
  Lines 156-175 and 236-256: a new buffer, which reads \<open>env.observation_shape\<close>, the
  seeding, the reset of the environment and the initial values of the episode's variables,
  with a reading of the clock for \<open>start_time\<close>.
\<close>

definition reset_episode ::
  "('g, 'n, 'e) collaborators \<Rightarrow> sampler \<Rightarrow> ('g, 'n, 'e) world
     \<Rightarrow> error + sampler \<times> ('g, 'n, 'e) world \<times> locals" where
  "reset_episode C self w =
     (case observation_shape C of
        Inl e \<Rightarrow> Inl e
      | Inr shape \<Rightarrow>
          (case reseed C (self_seed self) (seeds self) (py_random w) of
             Inl e \<Rightarrow> Inl e
           | Inr (seed, g, n) \<Rightarrow>
               (case env_reset C (g, n, env_st w) of
                  (ob, g', n', e') \<Rightarrow>
                    Inr (self\<lparr>buffer :=
                           init_with_observation (SamplerBuffer (buffer_size self)) ob\<rparr>,
                         w\<lparr>py_random := g', np_random := n', env_st := e',
                           ticks := ticks w + 1\<rparr>,
                         \<lparr>loc_seed = seed, loc_start_time = time_time C (ticks w),
                          loc_step_index = 0, loc_episode_reward = 0,
                          loc_episode_reward_orig = 0, loc_done = False\<rparr>))))"

subsection \<open>The end of an episode\<close>

text \<open>Lines 191-192.\<close>

definition store_if_enabled ::
  "('g, 'n, 'e) collaborators \<Rightarrow> sampler \<Rightarrow> error + sampler" where
  "store_if_enabled C self =
     (if \<not> infer self \<or> force_store self then store_episode C self else Inr self)"

text \<open>Lines 194-199.\<close>

definition print_report ::
  "sampler \<Rightarrow> locals \<Rightarrow> ('g, 'n, 'e) world \<Rightarrow> ('g, 'n, 'e) world" where
  "print_report self v w =
     w\<lparr>stdout := stdout w @
        [\<lparr>rep_episode_index = episode_index self, rep_steps = loc_step_index v,
          rep_reward = loc_episode_reward v, rep_reward_orig = loc_episode_reward_orig v,
          rep_seed = loc_seed v\<rparr>]\<rparr>"

text \<open>
  Lines 201-226, the metrics. The divisions by \<open>elapsed_time\<close> (the first at line 210) and
  by \<open>step_index\<close> raise \<open>ZeroDivisionError\<close> on 0.
\<close>

definition log_metrics ::
  "('g, 'n, 'e) collaborators \<Rightarrow> sampler \<Rightarrow> locals \<Rightarrow> real \<Rightarrow> error + sampler" where
  "log_metrics C self v elapsed_time =
     (case logger self of
        None \<Rightarrow> Inr self
      | Some scalars \<Rightarrow>
          if elapsed_time = 0 \<or> loc_step_index v = 0 then Inl ZeroDivisionError
          else Inr (self\<lparr>logger := Some (scalars @
            [(''steps'', real (loc_step_index v), episode_index self),
             (''reward'', loc_episode_reward v, episode_index self),
             (''reward_origin'', loc_episode_reward_orig v, episode_index self),
             (''episode per minute'', rnd C (rnd C (1 / elapsed_time) * 60),
              episode_index self),
             (''steps per second'', rnd C (real (loc_step_index v) / elapsed_time),
              episode_index self),
             (''episode time (sec)'', elapsed_time, episode_index self),
             (''episode time (min)'', rnd C (elapsed_time / 60), episode_index self),
             (''step time (sec)'', rnd C (elapsed_time / real (loc_step_index v)),
              episode_index self)])\<rparr>))"

text \<open>
  Lines 190-228, from the end of the inner loop to the increment of the episode index:
  the elapsed time, the store, the print, the metrics, the increment.
\<close>

definition end_episode ::
  "('g, 'n, 'e) collaborators \<Rightarrow> sampler \<times> ('g, 'n, 'e) world \<times> locals
     \<Rightarrow> error + sampler \<times> ('g, 'n, 'e) world" where
  "end_episode C st =
     (case st of (self, w, v) \<Rightarrow>
        (case store_if_enabled C self of
           Inl e \<Rightarrow> Inl e
         | Inr self1 \<Rightarrow>
             (case log_metrics C self1 v
                     (rnd C (time_time C (ticks w) - loc_start_time v)) of
                Inl e \<Rightarrow> Inl e
              | Inr self2 \<Rightarrow>
                  Inr (self2\<lparr>episode_index := episode_index self2 + 1\<rparr>,
                       print_report self1 v (w\<lparr>ticks := ticks w + 1\<rparr>)))))"

text \<open>Lines 233-234; \<open>%\<close> raises \<open>ZeroDivisionError\<close> when the period is 0.\<close>

definition sync_weights :: "('g, 'n, 'e) collaborators \<Rightarrow> sampler \<Rightarrow> error + sampler" where
  "sync_weights C self =
     (if weights_sync_period self = 0 then Inl ZeroDivisionError
      else if episode_index self mod weights_sync_period self = 0
        then load_critic_weights C self
      else Inr self)"

subsection \<open>The run\<close>

text \<open>
  The outer loop \<open>while True\<close>, lines 177-256, entered with an episode reset: the inner
  loop, the end of the episode, the test of the episode limit (lines 230-231), the
  periodic load of the weights and the reset for the next episode.
\<close>

partial_function (option) run_loop ::
  "('g, 'n, 'e) collaborators \<Rightarrow> sampler \<times> ('g, 'n, 'e) world \<times> locals
     \<Rightarrow> (error + sampler \<times> ('g, 'n, 'e) world) option" where
  "run_loop C st =
     (case steps_loop C st of
        None \<Rightarrow> None
      | Some (Inl e) \<Rightarrow> Some (Inl e)
      | Some (Inr st1) \<Rightarrow>
          (case end_episode C st1 of
             Inl e \<Rightarrow> Some (Inl e)
           | Inr (self2, w2) \<Rightarrow>
               if episode_limit self2 \<le> episode_index self2 then Some (Inr (self2, w2))
               else
                 (case sync_weights C self2 of
                    Inl e \<Rightarrow> Some (Inl e)
                  | Inr self3 \<Rightarrow>
                      (case reset_episode C self3 w2 of
                         Inl e \<Rightarrow> Some (Inl e)
                       | Inr st' \<Rightarrow> run_loop C st'))))"

text \<open>\<open>run\<close>, lines 153-256.\<close>

definition run ::
  "('g, 'n, 'e) collaborators \<Rightarrow> sampler \<Rightarrow> ('g, 'n, 'e) world
     \<Rightarrow> (error + sampler \<times> ('g, 'n, 'e) world) option" where
  "run C self w =
     (case load_critic_weights C (self\<lparr>episode_index := 1\<rparr>) of
        Inl e \<Rightarrow> Some (Inl e)
      | Inr self1 \<Rightarrow>
          (case reset_episode C self1 w of
             Inl e \<Rightarrow> Some (Inl e)
           | Inr st \<Rightarrow> run_loop C st))"

text \<open>Constructing a sampler and running it, as the caller of the class does.\<close>

definition construct_and_run ::
  "('g, 'n, 'e) collaborators \<Rightarrow> config \<Rightarrow> ('g, 'n, 'e) world
     \<Rightarrow> (error + sampler \<times> ('g, 'n, 'e) world) option" where
  "construct_and_run C cfg w =
     (case Sampler_init C cfg w of
        Inl e \<Rightarrow> Some (Inl e)
      | Inr (self, w1) \<Rightarrow> run C self w1)"

subsection \<open>Observations of a run\<close>

text \<open>The list behind the key \<open>trajectories\<close> of the sampler's server, if it has one.\<close>

definition trajectories :: "sampler \<Rightarrow> blob list" where
  "trajectories self =
     (case redis_server self of None \<Rightarrow> [] | Some r \<Rightarrow> lists r ''trajectories'')"

text \<open>The lines printed since the world \<open>w\<close>, and the steps they report.\<close>

definition printed_since :: "('g, 'n, 'e) world \<Rightarrow> ('g, 'n, 'e) world \<Rightarrow> report list" where
  "printed_since w w' = drop (length (stdout w)) (stdout w')"


text \<open>
  The contract of \<open>random.randrange(n)\<close> for a positive \<open>n\<close>: the draw lies in
  \<open>[0, n)\<close>.
\<close>

definition randrange_in_range :: "('g, 'n, 'e) collaborators \<Rightarrow> bool" where
  "randrange_in_range C =
     (\<forall>n g. 0 < n \<longrightarrow> 0 \<le> fst (randrange C n g) \<and> fst (randrange C n g) < n)"

text \<open>What the seeding promises of an episode seed: in the pool, or in \<open>[0, SEED_RANGE)\<close>.\<close>

definition episode_seed_ok :: "int list option \<Rightarrow> int \<Rightarrow> bool" where
  "episode_seed_ok pool seed =
     (case pool of None \<Rightarrow> 0 \<le> seed \<and> seed < SEED_RANGE | Some xs \<Rightarrow> seed \<in> set xs)"




text \<open>
  The step of the exploration schedule on the value of \<open>eps\<close>, for the decrement \<open>d\<close> and
  the floor \<open>f\<close>.
\<close>

definition eps_step :: "(real \<Rightarrow> real) \<Rightarrow> real \<Rightarrow> real \<Rightarrow> real \<Rightarrow> real" where
  "eps_step r d f x = max (r (x - d)) f"

text \<open>
  The attributes that are assigned by the constructor only: two samplers agree on them.
\<close>

definition same_settings :: "sampler \<Rightarrow> sampler \<Rightarrow> bool" where
  "same_settings a b =
     (self_seed a = self_seed b \<and> sampler_id a = sampler_id b
      \<and> redis_prefix a = redis_prefix b \<and> resume a = resume b
      \<and> episode_limit a = episode_limit b \<and> force_store a = force_store b
      \<and> num_actions a = num_actions b \<and> history_len a = history_len b
      \<and> buffer_size a = buffer_size b \<and> weights_sync_period a = weights_sync_period b
      \<and> eps_final a = eps_final b \<and> eps_delta a = eps_delta b
      \<and> infer a = infer b \<and> seeds a = seeds b)"

subsection \<open>Stub collaborators and configurations\<close>

text \<open>
  A stub environment whose episodes have exactly 5 steps (its state counts the steps since
  the reset), a stub critic with constant scores, counters as random sources, a clock that
  advances by one second at each reading, exact arithmetic, a checkpoint at the path
  \<open>ckpt\<close> and a codec that decodes the blob \<open>w\<close> only.
\<close>

definition stub_C :: "(int, int, nat) collaborators" where
  "stub_C =
     \<lparr>random_seed = (\<lambda>s. s),
      np_random_seed = (\<lambda>s. s),
      randrange = (\<lambda>n g. (g mod n, g + 1)),
      np_random_rand = (\<lambda>n. (1 / 2, n + 1)),
      np_random_randint = (\<lambda>k n. (n mod k, n + 1)),
      time_time = (\<lambda>n. real n),
      rnd = (\<lambda>x. x),
      env_reset = (\<lambda>(g, n, e). ([0], g, n, 0)),
      env_step = (\<lambda>a (g, n, e). (([real (e + 1)], 1, 5 \<le> e + 1, []), g, n, e + 1)),
      observation_shape = Inr [1],
      prepare_critic = (\<lambda>c. Inr c),
      summary_writer = (\<lambda>d m i. Inr ()),
      critic_forward = (\<lambda>c s. [0, 0]),
      to_tensor = (\<lambda>v. v),
      serialize = (\<lambda>(os, acts, rws, dns). replicate (length acts) (CHR ''t'')),
      deserialize =
        (\<lambda>b. case b of
               None \<Rightarrow> Inl (OtherError ''TypeError'')
             | Some x \<Rightarrow>
                 if x = ''w'' then Inr [(''fc'', [1])]
                 else Inl (OtherError ''UnpicklingError'')),
      load_checkpoint =
        (\<lambda>p. if p = ''ckpt'' then Inr [(''critic_state_dict'', [(''fc'', [2])])]
             else Inl (OtherError ''FileNotFoundError''))\<rparr>"

definition stub_world :: "(int, int, nat) world" where
  "stub_world = \<lparr>py_random = 0, np_random = 0, env_st = 0, ticks = 0, stdout = []\<rparr>"

definition stub_redis :: redis where
  "stub_redis =
     \<lparr>kv = (\<lambda>k. if k = ''p_critic_weights'' then Some ''w'' else None),
      lists = (\<lambda>k. [])\<rparr>"

text \<open>
  The defaults of the constructor, in train mode, with the stub server under the prefix
  \<open>p\<close> as the only weight backend and \<open>episode_limit=3\<close>.
\<close>

definition stub_cfg :: config where
  "stub_cfg =
     \<lparr>cfg_critic = \<lparr>state_dict = [(''fc'', [0])], training = True\<rparr>,
      cfg_id = 0,
      cfg_num_actions = 2,
      cfg_logdir = None,
      cfg_redis_server = Some stub_redis,
      cfg_redis_prefix = Some ''p'',
      cfg_buffer_size = 10000,
      cfg_history_len = 1,
      cfg_weights_sync_period = 1,
      cfg_mode = ''train'',
      cfg_resume = None,
      cfg_exploration_eps_init = 1,
      cfg_exploration_eps_final = 1 / 20,
      cfg_exploration_annealing_steps = 1000000,
      cfg_seeds = None,
      cfg_episode_limit = Some 3,
      cfg_force_store = False\<rparr>"

text \<open>Samplers built from variants of the stub configuration.\<close>

definition stub_sampler :: "config \<Rightarrow> sampler" where
  "stub_sampler cfg = new_sampler stub_C cfg (cfg_critic cfg) None"

definition stub_self :: sampler where
  "stub_self = stub_sampler stub_cfg"

definition stub_both :: sampler where
  "stub_both = stub_sampler (stub_cfg\<lparr>cfg_resume := Some ''ckpt''\<rparr>)"

definition stub_ckpt_only :: sampler where
  "stub_ckpt_only =
     stub_sampler (stub_cfg\<lparr>cfg_redis_server := None, cfg_resume := Some ''ckpt''\<rparr>)"

definition stub_empty_store :: sampler where
  "stub_empty_store = stub_self\<lparr>redis_server := Some (stub_redis\<lparr>kv := (\<lambda>k. None)\<rparr>)\<rparr>"

text \<open>A buffer that holds a complete episode of one step.\<close>

definition stub_episode_buffer :: buffer where
  "stub_episode_buffer =
     \<lparr>capacity = 10000, frames = [[0], [1]], actions = [0], rewards = [1], dones = [True]\<rparr>"

text \<open>The state of the stub one step before the end of an episode.\<close>

definition stub_last_step :: "sampler \<times> (int, int, nat) world \<times> locals" where
  "stub_last_step =
     (stub_self\<lparr>buffer := init_with_observation (SamplerBuffer 10000) [0]\<rparr>,
      stub_world\<lparr>env_st := 4\<rparr>,
      \<lparr>loc_seed = 0, loc_start_time = 0, loc_step_index = 0, loc_episode_reward = 0,
       loc_episode_reward_orig = 0, loc_done = False\<rparr>)"







section \<open>Properties\<close>

subsection \<open>Partial correctness of the two loops\<close>

text \<open>
  An invariant of the body of the inner loop that holds at its entry holds when the loop
  returns, with \<open>done\<close> set.
\<close>

lemma steps_loop_rule:
  assumes run: "steps_loop C st = Some (Inr st')"
    and init: "I st"
    and step: "\<And>s s'. I s \<Longrightarrow> \<not> loc_done (snd (snd s)) \<Longrightarrow> step_body C s = Inr s' \<Longrightarrow> I s'"
  shows "I st' \<and> loc_done (snd (snd st'))"
proof -
  let ?P = "\<lambda>C0 s r. C0 = C \<longrightarrow> I s \<longrightarrow> (\<forall>s'. r = Inr s' \<longrightarrow> I s' \<and> loc_done (snd (snd s')))"
  note R = steps_loop.raw_induct[where P = "\<lambda>C0 s r. C0 = C \<longrightarrow> I s \<longrightarrow> (\<forall>s'. r = Inr s' \<longrightarrow> I s' \<and> loc_done (snd (snd s')))", OF _ run]
  have "?P C st (Inr st' :: error + _)"
  proof (rule R)
    fix f :: "('a, 'b, 'c) collaborators \<Rightarrow> sampler \<times> ('a, 'b, 'c) world \<times> locals
                \<Rightarrow> (error + sampler \<times> ('a, 'b, 'c) world \<times> locals) option"
    fix C0 s r
    assume IH: "\<And>s b y. f s b = Some y \<Longrightarrow> ?P s b y"
    assume body: "(if loc_done (snd (snd s)) then Some (Inr s)
         else case step_body C0 s of Inl e \<Rightarrow> Some (Inl e) | Inr st' \<Rightarrow> f C0 st') = Some r"
    show "?P C0 s r"
    proof (intro impI allI)
      fix s'
      assume c: "C0 = C" and i: "I s" and r: "r = Inr s'"
      show "I s' \<and> loc_done (snd (snd s'))"
      proof (cases "loc_done (snd (snd s))")
        case True
        with body r have "s' = s" by simp
        with True i show ?thesis by simp
      next
        case False
        with body c r obtain s1 where s1: "step_body C s = Inr s1" and f: "f C s1 = Some r"
          by (auto split: sum.splits)
        from step[OF i False s1] have "I s1" .
        with IH[OF f] r show ?thesis by simp
      qed
    qed
  qed
  with init show ?thesis by simp
qed

text \<open>
  The outer loop: an invariant of the episodes that are followed by another one, and what
  the last episode establishes.
\<close>

lemma run_loop_rule:
  assumes run: "run_loop C st = Some (Inr fin)"
    and init: "I st"
    and again: "\<And>s s1 a2 w2 a3 s'.
        I s \<Longrightarrow> steps_loop C s = Some (Inr s1) \<Longrightarrow> end_episode C s1 = Inr (a2, w2) \<Longrightarrow>
        \<not> episode_limit a2 \<le> episode_index a2 \<Longrightarrow> sync_weights C a2 = Inr a3 \<Longrightarrow>
        reset_episode C a3 w2 = Inr s' \<Longrightarrow> I s'"
    and stop: "\<And>s s1 a2 w2.
        I s \<Longrightarrow> steps_loop C s = Some (Inr s1) \<Longrightarrow> end_episode C s1 = Inr (a2, w2) \<Longrightarrow>
        episode_limit a2 \<le> episode_index a2 \<Longrightarrow> Q (a2, w2)"
  shows "Q fin"
proof -
  let ?P = "\<lambda>C0 s r. C0 = C \<longrightarrow> I s \<longrightarrow> (\<forall>x. r = Inr x \<longrightarrow> Q x)"
  note R = run_loop.raw_induct[where P = "\<lambda>C0 s r. C0 = C \<longrightarrow> I s \<longrightarrow> (\<forall>x. r = Inr x \<longrightarrow> Q x)", OF _ run]
  have "?P C st (Inr fin :: error + _)"
  proof (rule R)
    fix f :: "('a, 'b, 'c) collaborators \<Rightarrow> sampler \<times> ('a, 'b, 'c) world \<times> locals
                \<Rightarrow> (error + sampler \<times> ('a, 'b, 'c) world) option"
    fix C0 s r
    assume IH: "\<And>s b y. f s b = Some y \<Longrightarrow> ?P s b y"
    assume body: "(case steps_loop C0 s of None \<Rightarrow> None | Some (Inl e) \<Rightarrow> Some (Inl e)
      | Some (Inr st1) \<Rightarrow>
          case end_episode C0 st1 of Inl e \<Rightarrow> Some (Inl e)
          | Inr (self2, w2) \<Rightarrow>
              if episode_limit self2 \<le> episode_index self2 then Some (Inr (self2, w2))
              else case sync_weights C0 self2 of Inl e \<Rightarrow> Some (Inl e)
                   | Inr self3 \<Rightarrow>
                       case reset_episode C0 self3 w2 of
                       Inl e \<Rightarrow> Some (Inl e) | Inr st' \<Rightarrow> f C0 st') = Some r"
    show "?P C0 s r"
    proof (intro impI allI)
      fix x
      assume c: "C0 = C" and i: "I s" and r: "r = Inr x"
      from body c r obtain s1 a2 w2 where
        sl: "steps_loop C s = Some (Inr s1)" and ee: "end_episode C s1 = Inr (a2, w2)"
        by (auto split: option.splits sum.splits prod.splits)
      show "Q x"
      proof (cases "episode_limit a2 \<le> episode_index a2")
        case True
        with body c r sl ee have "x = (a2, w2)" by simp
        with stop[OF i sl ee True] show ?thesis by simp
      next
        case False
        with body c r sl ee obtain a3 s2 where
          sw: "sync_weights C a2 = Inr a3" and re: "reset_episode C a3 w2 = Inr s2"
          and f: "f C s2 = Some r"
          by (auto split: sum.splits)
        from again[OF i sl ee False sw re] have "I s2" .
        with IH[OF f] r show ?thesis by simp
      qed
    qed
  qed
  with init show ?thesis by simp
qed

subsection \<open>What each operation leaves unchanged\<close>

lemma same_settings_refl: "same_settings a a"
  by (simp add: same_settings_def)

lemma same_settings_trans: "same_settings a b \<Longrightarrow> same_settings b c \<Longrightarrow> same_settings a c"
  by (simp add: same_settings_def)

lemma step_body_frame:
  assumes "step_body C (self, w, v) = Inr (self', w', v')"
  shows "same_settings self self'" and "redis_server self' = redis_server self"
    and "episode_index self' = episode_index self" and "logger self' = logger self"
    and "stdout w' = stdout w" and "ticks w' = ticks w"
    and "loc_seed v' = loc_seed v" and "loc_start_time v' = loc_start_time v"
    and "loc_step_index v' = Suc (loc_step_index v)"
    and "eps self' = eps_step (rnd C) (eps_delta self) (eps_final self) (eps self)"
  using assms
  by (auto simp: step_body_def decay_eps_def eps_step_def push_transition_def same_settings_def
      split: sum.splits prod.splits if_splits)

lemma steps_loop_frame:
  assumes "steps_loop C (self, w, v) = Some (Inr (self', w', v'))"
  shows "same_settings self self' \<and> redis_server self' = redis_server self
     \<and> episode_index self' = episode_index self \<and> logger self' = logger self
     \<and> stdout w' = stdout w \<and> ticks w' = ticks w
     \<and> loc_seed v' = loc_seed v \<and> loc_start_time v' = loc_start_time v \<and> loc_done v'"
proof -
  let ?I = "\<lambda>s. (case s of (a, b, c) \<Rightarrow>
     same_settings self a \<and> redis_server a = redis_server self
     \<and> episode_index a = episode_index self \<and> logger a = logger self
     \<and> stdout b = stdout w \<and> ticks b = ticks w
     \<and> loc_seed c = loc_seed v \<and> loc_start_time c = loc_start_time v)"
  have "?I (self', w', v') \<and> loc_done (snd (snd (self', w', v')))"
  proof (rule steps_loop_rule[OF assms, where I = ?I])
    show "?I (self, w, v)" by (simp add: same_settings_refl)
  next
    fix s s' assume a: "?I s" "\<not> loc_done (snd (snd s))" "step_body C s = Inr s'"
    obtain a b c where s: "s = (a, b, c)" by (cases s)
    obtain a' b' c' where s': "s' = (a', b', c')" by (cases s')
    note f = step_body_frame[OF a(3)[unfolded s s']]
    from a(1) s have i: "same_settings self a" "redis_server a = redis_server self"
      "episode_index a = episode_index self" "logger a = logger self"
      "stdout b = stdout w" "ticks b = ticks w"
      "loc_seed c = loc_seed v" "loc_start_time c = loc_start_time v" by simp_all
    from same_settings_trans[OF i(1) f(1)] f i show "?I s'" unfolding s' by simp
  qed
  then show ?thesis by simp
qed

lemma load_critic_weights_frame:
  assumes "load_critic_weights C self = Inr self'"
  shows "self' = self\<lparr>critic := critic self'\<rparr>"
  using assms by (auto simp: load_critic_weights_def split: option.splits sum.splits)

lemma sync_weights_frame:
  assumes "sync_weights C self = Inr self'"
  shows "self' = self\<lparr>critic := critic self'\<rparr>"
  using assms by (auto simp: sync_weights_def split: if_splits dest: load_critic_weights_frame)

lemma store_episode_frame:
  assumes "store_episode C self = Inr self'"
  shows "self' = self\<lparr>redis_server := redis_server self'\<rparr>"
  using assms by (auto simp: store_episode_def split: option.splits sum.splits)

lemma store_if_enabled_frame:
  assumes "store_if_enabled C self = Inr self'"
  shows "self' = self\<lparr>redis_server := redis_server self'\<rparr>"
  using assms by (auto simp: store_if_enabled_def split: if_splits dest: store_episode_frame)

lemma store_if_enabled_no_server:
  assumes "store_if_enabled C self = Inr self'" and "redis_server self = None"
  shows "redis_server self' = None"
  using assms by (auto simp: store_if_enabled_def store_episode_def split: if_splits)

lemma log_metrics_frame:
  assumes "log_metrics C self v t = Inr self'"
  shows "self' = self\<lparr>logger := logger self'\<rparr>"
  using assms by (auto simp: log_metrics_def split: option.splits if_splits)

lemma reset_episode_frame:
  assumes "reset_episode C self w = Inr (self', w', v')"
  shows "self' = self\<lparr>buffer := buffer self'\<rparr>" and "stdout w' = stdout w"
    and "loc_step_index v' = 0" and "\<not> loc_done v'"
  using assms by (auto simp: reset_episode_def split: sum.splits prod.splits)

text \<open>The end of an episode: what it changes, and the line it prints.\<close>

lemma end_episode_frame:
  assumes ee: "end_episode C (a1, w1, v1) = Inr (a2, w2)"
  shows "same_settings a1 a2" and "eps a2 = eps a1"
    and "episode_index a2 = episode_index a1 + 1"
    and "redis_server a1 = None \<Longrightarrow> redis_server a2 = None"
    and "stdout w2 = stdout w1 @
          [\<lparr>rep_episode_index = episode_index a1, rep_steps = loc_step_index v1,
            rep_reward = loc_episode_reward v1, rep_reward_orig = loc_episode_reward_orig v1,
            rep_seed = loc_seed v1\<rparr>]"
proof -
  from ee obtain b c where sg: "store_if_enabled C a1 = Inr b"
    and lm: "log_metrics C b v1 (rnd C (time_time C (ticks w1) - loc_start_time v1)) = Inr c"
    and a2: "a2 = c\<lparr>episode_index := episode_index c + 1\<rparr>"
    and w2: "w2 = print_report b v1 (w1\<lparr>ticks := ticks w1 + 1\<rparr>)"
    by (auto simp: end_episode_def split: sum.splits)
  from store_if_enabled_frame[OF sg] have b: "b = a1\<lparr>redis_server := redis_server b\<rparr>" .
  from log_metrics_frame[OF lm] have c: "c = b\<lparr>logger := logger c\<rparr>" .
  have e: "a2 = a1\<lparr>redis_server := redis_server b, logger := logger c,
      episode_index := episode_index a1 + 1\<rparr>"
    by (subst a2, subst c, subst b, subst c, subst b, simp)
  show "same_settings a1 a2" by (subst e) (simp add: same_settings_def)
  show "eps a2 = eps a1" by (subst e) simp
  show "episode_index a2 = episode_index a1 + 1" by (subst e) simp
  have "episode_index b = episode_index a1" by (subst b) simp
  then show "stdout w2 = stdout w1 @
          [\<lparr>rep_episode_index = episode_index a1, rep_steps = loc_step_index v1,
            rep_reward = loc_episode_reward v1, rep_reward_orig = loc_episode_reward_orig v1,
            rep_seed = loc_seed v1\<rparr>]"
    by (simp add: w2 print_report_def)
  assume "redis_server a1 = None"
  from store_if_enabled_no_server[OF sg this] have "redis_server b = None" .
  then show "redis_server a2 = None" by (subst e) simp
qed

lemma end_episode_server:
  assumes "end_episode C (a1, w1, v1) = Inr (a2, w2)"
  shows "\<exists>b. store_if_enabled C a1 = Inr b \<and> redis_server a2 = redis_server b"
proof -
  from assms obtain b c where sg: "store_if_enabled C a1 = Inr b"
    and lm: "log_metrics C b v1 (rnd C (time_time C (ticks w1) - loc_start_time v1)) = Inr c"
    and a2: "a2 = c\<lparr>episode_index := episode_index c + 1\<rparr>"
    by (auto simp: end_episode_def split: sum.splits)
  from log_metrics_frame[OF lm] have c: "c = b\<lparr>logger := logger c\<rparr>" .
  have "redis_server a2 = redis_server b" by (subst a2, subst c, simp)
  with sg show ?thesis by blast
qed

text \<open>The load of the weights and the reset between two episodes.\<close>

lemma next_episode_frame:
  assumes sw: "sync_weights C a2 = Inr a3" and re: "reset_episode C a3 w2 = Inr (a4, w4, v4)"
  shows "same_settings a2 a4" and "eps a4 = eps a2"
    and "episode_index a4 = episode_index a2" and "redis_server a4 = redis_server a2"
    and "stdout w4 = stdout w2" and "loc_step_index v4 = 0" and "\<not> loc_done v4"
proof -
  from sync_weights_frame[OF sw] have a3: "a3 = a2\<lparr>critic := critic a3\<rparr>" .
  note r = reset_episode_frame[OF re]
  have e: "a4 = a2\<lparr>critic := critic a3, buffer := buffer a4\<rparr>"
    by (subst r(1), subst a3, simp)
  show "same_settings a2 a4" by (subst e) (simp add: same_settings_def)
  show "eps a4 = eps a2" by (subst e) simp
  show "episode_index a4 = episode_index a2" by (subst e) simp
  show "redis_server a4 = redis_server a2" by (subst e) simp
  from r show "stdout w4 = stdout w2" "loc_step_index v4 = 0" "\<not> loc_done v4" by simp_all
qed

text \<open>The entry of \<open>run\<close>, up to the outer loop.\<close>

lemma run_entry:
  assumes run: "run C self w = Some (Inr (self', w'))"
  obtains a1 a2 w2 v2 where "run_loop C (a2, w2, v2) = Some (Inr (self', w'))"
    and "reset_episode C a1 w = Inr (a2, w2, v2)" and "same_settings self a1"
    and "same_settings self a2" and "eps a2 = eps self" and "episode_index a2 = 1"
    and "redis_server a2 = redis_server self" and "stdout w2 = stdout w"
    and "loc_step_index v2 = 0" and "\<not> loc_done v2"
proof -
  from run obtain a1 st where
    l: "load_critic_weights C (self\<lparr>episode_index := 1\<rparr>) = Inr a1"
    and re: "reset_episode C a1 w = Inr st" and rl: "run_loop C st = Some (Inr (self', w'))"
    by (auto simp: run_def split: sum.splits)
  obtain a2 w2 v2 where st: "st = (a2, w2, v2)" by (cases st)
  from load_critic_weights_frame[OF l]
  have a1: "a1 = self\<lparr>episode_index := 1, critic := critic a1\<rparr>" by simp
  note r = reset_episode_frame[OF re[unfolded st]]
  have e: "a2 = self\<lparr>episode_index := 1, critic := critic a1, buffer := buffer a2\<rparr>"
    by (subst r(1), subst a1, simp)
  show ?thesis
  proof (rule that[of a2 w2 v2 a1])
    show "run_loop C (a2, w2, v2) = Some (Inr (self', w'))" using rl st by simp
    show "reset_episode C a1 w = Inr (a2, w2, v2)" using re st by simp
    show "same_settings self a1" by (subst a1) (simp add: same_settings_def)
    show "same_settings self a2" by (subst e) (simp add: same_settings_def)
    show "eps a2 = eps self" by (subst e) simp
    show "episode_index a2 = 1" by (subst e) simp
    show "redis_server a2 = redis_server self" by (subst e) simp
    show "stdout w2 = stdout w" "loc_step_index v2 = 0" "\<not> loc_done v2" using r by simp_all
  qed
qed

subsection \<open>The exploration schedule\<close>







subsection \<open>One episode\<close>

text \<open>When the inner loop returns from a state that was not done, the buffer holds a complete episode.\<close>

lemma steps_loop_complete:
  assumes "steps_loop C (self, w, v) = Some (Inr (self', w', v'))" and "\<not> loc_done v"
  shows "\<exists>ep. get_complete_episode (buffer self') = Inr ep"
proof -
  let ?I = "\<lambda>s. (case s of (a, b, c) \<Rightarrow>
     s = (self, w, v) \<or> (dones (buffer a) \<noteq> [] \<and> last (dones (buffer a)) = loc_done c))"
  have "?I (self', w', v') \<and> loc_done (snd (snd (self', w', v')))"
  proof (rule steps_loop_rule[OF assms(1), where I = ?I])
    show "?I (self, w, v)" by simp
  next
    fix s s' assume "?I s" "\<not> loc_done (snd (snd s))" "step_body C s = Inr s'"
    then show "?I s'"
      by (cases s; cases s')
        (auto simp: step_body_def decay_eps_def push_transition_def
          split: sum.splits prod.splits if_splits)
  qed
  with assms(2) show ?thesis by (auto simp: get_complete_episode_def)
qed

subsection \<open>Seeding\<close>

lemma choice_in_pool:
  assumes "choice C xs g = Inr (x, g')"
  shows "x \<in> set xs"
  using assms by (auto simp: choice_def split: if_splits prod.splits)

lemma choice_returns:
  assumes "randrange_in_range C" and "xs \<noteq> []"
  shows "\<exists>x g'. choice C xs g = Inr (x, g')"
proof -
  have "0 < int (length xs)" using assms(2) by simp
  with assms(1) have "0 \<le> fst (randrange C (int (length xs)) g)
      \<and> fst (randrange C (int (length xs)) g) < int (length xs)"
    unfolding randrange_in_range_def by blast
  then show ?thesis using assms(2) by (auto simp: choice_def split: prod.splits)
qed

lemma SEED_RANGE_pos: "0 < SEED_RANGE"
  by (simp add: SEED_RANGE_def)

text \<open>
  A seeding that returns: both seeds were accepted, the first is \<open>_seed\<close> plus the first
  draw, the episode seed is drawn or picked from the generator seeded with it, and the two
  generators are left seeded with the episode seed.
\<close>

lemma reseed_returns:
  assumes "reseed C base pool g = Inr (seed, g', n')"
  shows "0 \<le> base + fst (randrange C SEED_RANGE g)"
    and "base + fst (randrange C SEED_RANGE g) < 2 ^ 32"
    and "(case pool of
            None \<Rightarrow> seed = fst (randrange C SEED_RANGE
                       (random_seed C (base + fst (randrange C SEED_RANGE g))))
          | Some xs \<Rightarrow> map_sum id fst (choice C xs
                       (random_seed C (base + fst (randrange C SEED_RANGE g)))) = Inr seed)"
    and "0 \<le> seed" and "seed < 2 ^ 32"
    and "g' = random_seed C seed" and "n' = np_random_seed C seed"
  using assms
  by (auto simp: reseed_def set_global_seeds_def
      split: prod.splits sum.splits option.splits if_splits)

lemma reseed_ok:
  assumes c: "randrange_in_range C" and r: "reseed C base pool g = Inr (seed, g', n')"
  shows "episode_seed_ok pool seed"
proof (cases pool)
  case None
  let ?g1 = "random_seed C (base + fst (randrange C SEED_RANGE g))"
  from c SEED_RANGE_pos
  have "0 \<le> fst (randrange C SEED_RANGE ?g1) \<and> fst (randrange C SEED_RANGE ?g1) < SEED_RANGE"
    unfolding randrange_in_range_def by blast
  with reseed_returns(3)[OF r] None show ?thesis by (simp add: episode_seed_ok_def)
next
  case (Some xs)
  with reseed_returns(3)[OF r] show ?thesis
    by (cases "choice C xs (random_seed C (base + fst (randrange C SEED_RANGE g)))")
      (auto simp: episode_seed_ok_def dest: choice_in_pool)
qed

text \<open>The first seeding raises when \<open>_seed\<close> plus the first draw is not a seed of numpy.\<close>

lemma reseed_phase_one_raises:
  assumes "\<not> (0 \<le> base + fst (randrange C SEED_RANGE g)
              \<and> base + fst (randrange C SEED_RANGE g) < 2 ^ 32)"
  shows "reseed C base pool g = Inl ValueError"
  using assms by (auto simp: reseed_def set_global_seeds_def split: prod.splits)

text \<open>
  An episode reset that returns has made the seeding from the state of \<open>random\<close> at its
  entry and has reset the environment with the two generators seeded with the episode seed.
\<close>

lemma reset_episode_reseed:
  assumes "reset_episode C self w = Inr (self', w', v)"
  shows "\<exists>g n. reseed C (self_seed self) (seeds self) (py_random w) = Inr (loc_seed v, g, n)
     \<and> env_reset C (g, n, env_st w)
         = (last (frames (buffer self')), py_random w', np_random w', env_st w')"
  using assms
  by (auto simp: reset_episode_def init_with_observation_def split: sum.splits prod.splits)

lemma reset_episode_seed:
  assumes c: "randrange_in_range C" and r: "reset_episode C self w = Inr (self', w', v)"
  shows "episode_seed_ok (seeds self) (loc_seed v)"
  using reset_episode_reseed[OF r] reseed_ok[OF c] by blast

subsection \<open>The state of \<open>random\<close> during a run\<close>










subsection \<open>Runs without a server\<close>

lemma run_loop_no_server:
  assumes run: "run_loop C (self, w, v) = Some (Inr (self', w'))"
    and n: "redis_server self = None"
  shows "redis_server self' = None"
proof -
  let ?I = "\<lambda>s. (case s of (a, b, c) \<Rightarrow> redis_server a = None)"
  let ?Q = "\<lambda>x. (case x of (a, b) \<Rightarrow> redis_server a = None)"
  have ep: "redis_server a2 = None"
    if i: "?I (a0, w0, v0)" and sl: "steps_loop C (a0, w0, v0) = Some (Inr (a1, w1, v1))"
      and ee: "end_episode C (a1, w1, v1) = Inr (a2, w2)"
    for a0 w0 v0 a1 w1 v1 a2 w2
  proof -
    from steps_loop_frame[OF sl] i have "redis_server a1 = None" by simp
    from end_episode_frame(4)[OF ee this] show ?thesis .
  qed
  have "?Q (self', w')"
  proof (rule run_loop_rule[OF run, where I = ?I and Q = ?Q])
    show "?I (self, w, v)" using n by simp
  next
    fix s s1 a2 w2 a3 s'
    assume i: "?I s" and sl: "steps_loop C s = Some (Inr s1)"
      and ee: "end_episode C s1 = Inr (a2, w2)"
      and sw: "sync_weights C a2 = Inr a3" and re: "reset_episode C a3 w2 = Inr s'"
    obtain a0 w0 v0 where s: "s = (a0, w0, v0)" by (cases s)
    obtain a1 w1 v1 where s1: "s1 = (a1, w1, v1)" by (cases s1)
    obtain a4 w4 v4 where s': "s' = (a4, w4, v4)" by (cases s')
    from ep[OF i[unfolded s] sl[unfolded s s1] ee[unfolded s1]]
      next_episode_frame(4)[OF sw re[unfolded s']]
    show "?I s'" unfolding s' by simp
  next
    fix s s1 a2 w2
    assume i: "?I s" and sl: "steps_loop C s = Some (Inr s1)"
      and ee: "end_episode C s1 = Inr (a2, w2)"
    obtain a0 w0 v0 where s: "s = (a0, w0, v0)" by (cases s)
    obtain a1 w1 v1 where s1: "s1 = (a1, w1, v1)" by (cases s1)
    from ep[OF i[unfolded s] sl[unfolded s s1] ee[unfolded s1]]
    show "?Q (a2, w2)" by simp
  qed
  then show ?thesis by simp
qed

lemma run_no_server:
  assumes run: "run C self w = Some (Inr (self', w'))" and n: "redis_server self = None"
  shows "redis_server self' = None"
proof -
  from run obtain a1 a2 w2 v2 where rl: "run_loop C (a2, w2, v2) = Some (Inr (self', w'))"
    and c: "redis_server a2 = redis_server self"
    by (rule run_entry)
  from c n have "redis_server a2 = None" by simp
  from run_loop_no_server[OF rl this] show ?thesis .
qed

subsection \<open>The number of episodes\<close>



subsection \<open>The constructor\<close>

lemma Sampler_init_returns:
  assumes "Sampler_init C cfg w = Inr (self, w1)"
  shows "\<exists>c lg. self = new_sampler C cfg c lg"
    and "py_random w1 = random_seed C (42 + cfg_id cfg)"
    and "np_random w1 = np_random_seed C (42 + cfg_id cfg)"
    and "stdout w1 = stdout w" and "env_st w1 = env_st w" and "ticks w1 = ticks w"
    and "cfg_exploration_annealing_steps cfg \<noteq> 0"
  using assms
  by (auto simp: Sampler_init_def set_global_seeds_def
      split: sum.splits prod.splits option.splits if_splits)


subsection \<open>The stub runs\<close>

lemmas stub_defs = stub_C_def stub_cfg_def stub_world_def stub_redis_def stub_sampler_def
  stub_self_def stub_both_def stub_ckpt_only_def stub_empty_store_def stub_episode_buffer_def
  stub_last_step_def

lemmas run_defs = new_sampler_def Sampler_init_def set_global_seeds_def construct_and_run_def
  run_def load_critic_weights_def load_state_dict_def eval_mode_def redis_get_def
  reset_episode_def reseed_def choice_def SEED_RANGE_def SamplerBuffer_def
  init_with_observation_def step_body_def act_def decay_eps_def get_state_def
  push_transition_def store_if_enabled_def store_episode_def get_complete_episode_def
  redis_rpush_def print_report_def sync_weights_def log_metrics_def end_episode_def
  trajectories_def

text \<open>
  The stub configuration, with \<open>episode_limit=3\<close>, run by evaluation: the run returns
  after two episodes of five steps.
\<close>

lemma stub_run_eval:
  "\<exists>self' w'. construct_and_run stub_C stub_cfg stub_world = Some (Inr (self', w'))
     \<and> episode_index self' = 3
     \<and> map rep_episode_index (stdout w') = [1, 2]
     \<and> map rep_steps (stdout w') = [5, 5]
     \<and> map rep_seed (stdout w') = [84, 126]
     \<and> trajectories self' = [''ttttt'', ''ttttt'']
     \<and> eps self' = 1999981 / 2000000"
  by (simp add: stub_defs run_defs steps_loop.simps run_loop.simps)



lemma stub_last_step_eval:
  "\<exists>self w v. steps_loop stub_C stub_last_step = Some (Inr (self, w, v))"
  by (simp add: stub_defs run_defs steps_loop.simps)

lemma stub_randrange_in_range: "randrange_in_range stub_C"
  by (simp add: randrange_in_range_def stub_C_def)




section \<open>The claims\<close>

subsection \<open>C1: the number of episodes of a run\<close>

text \<open>
  Claim C1. With \<open>episode_limit = 3\<close>, the stub environment of 5-step episodes and the
  constant-score stub critic, the run returns; the claim expects three episodes. The run
  of the code returns with the episode index at 3 after two episodes of five steps, numbered
  1 and 2, and two pushed trajectories: \<open>run\<close> starts the index at 1 and stops as soon as
  the incremented index reaches the limit (lemma \<open>run_count\<close>: a run that returns has
  printed \<open>max 1 (episode_limit - 1)\<close> episodes).
\<close>

theorem episode_limit_3_runs_two_episodes:
  "\<exists>self' w'. construct_and_run stub_C stub_cfg stub_world = Some (Inr (self', w'))
     \<and> episode_limit stub_self = 3
     \<and> episode_index self' = 3
     \<and> map rep_episode_index (printed_since stub_world w') = [1, 2]
     \<and> map rep_steps (printed_since stub_world w') = [5, 5]
     \<and> trajectories self' = [''ttttt'', ''ttttt'']"
proof -
  have "episode_limit stub_self = 3" "stdout stub_world = []"
    by (simp_all add: stub_defs new_sampler_def)
  with stub_run_eval show ?thesis by (auto simp: printed_since_def)
qed

subsection \<open>C2: when a completed episode is pushed\<close>

text \<open>
  Claim C2, as stated, fails: in train mode without a server (\<open>redis_server\<close> is
  \<open>None\<close>), a completed episode is not pushed: \<open>store_episode\<close> returns at once.
\<close>

theorem train_mode_without_server_counterexample:
  "\<not> infer (stub_ckpt_only\<lparr>buffer := stub_episode_buffer\<rparr>)
   \<and> get_complete_episode (buffer (stub_ckpt_only\<lparr>buffer := stub_episode_buffer\<rparr>))
       = Inr ([[0]], [0], [1], [True])
   \<and> store_if_enabled stub_C (stub_ckpt_only\<lparr>buffer := stub_episode_buffer\<rparr>)
       = Inr (stub_ckpt_only\<lparr>buffer := stub_episode_buffer\<rparr>)
   \<and> trajectories (stub_ckpt_only\<lparr>buffer := stub_episode_buffer\<rparr>) = []"
  by (simp add: stub_defs new_sampler_def store_if_enabled_def store_episode_def
      get_complete_episode_def trajectories_def)

text \<open>
  Claim C2, amended: when a server is configured, the episode that the inner loop has
  completed is pushed to the list \<open>trajectories\<close> if and only if the mode is not
  \<open>infer\<close> or \<open>force_store\<close> is set; otherwise the list is unchanged; the end of the
  episode in \<open>run\<close> does this and nothing else to the list. (The constructor sets
  \<open>infer\<close> to \<open>mode == "infer"\<close>, and nothing changes it.)
\<close>

theorem completed_episode_pushed_iff:
  assumes sl: "steps_loop C (self0, w0, v0) = Some (Inr (self, w, v))"
    and nd: "\<not> loc_done v0" and rs: "redis_server self0 = Some r"
  shows "\<exists>ep self'. get_complete_episode (buffer self) = Inr ep
      \<and> store_if_enabled C self = Inr self'
      \<and> (trajectories self' = trajectories self @ [serialize C ep]
            \<longleftrightarrow> \<not> infer self0 \<or> force_store self0)
      \<and> (trajectories self' = trajectories self \<longleftrightarrow> infer self0 \<and> \<not> force_store self0)
      \<and> (\<forall>a2 w2. end_episode C (self, w, v) = Inr (a2, w2)
            \<longrightarrow> trajectories a2 = trajectories self')"
proof -
  from steps_loop_complete[OF sl nd] obtain ep where
    ep: "get_complete_episode (buffer self) = Inr ep" by blast
  from steps_loop_frame[OF sl] have s: "same_settings self0 self"
    "redis_server self = redis_server self0" by simp_all
  have f: "redis_server self = Some r" "infer self = infer self0"
    "force_store self = force_store self0"
    using rs s by (simp_all add: same_settings_def)
  have e: "trajectories a2 = trajectories self'"
    if "store_if_enabled C self = Inr self'" "end_episode C (self, w, v) = Inr (a2, w2)"
    for self' a2 w2
    using that end_episode_server[of C self w v a2 w2] by (auto simp: trajectories_def)
  show ?thesis
  proof (cases "\<not> infer self0 \<or> force_store self0")
    case True
    let ?s = "self\<lparr>redis_server := Some (redis_rpush r ''trajectories'' (serialize C ep))\<rparr>"
    from True f ep have g: "store_if_enabled C self = Inr ?s"
      by (simp add: store_if_enabled_def store_episode_def)
    have t: "trajectories ?s = trajectories self @ [serialize C ep]"
      using f(1) by (simp add: trajectories_def redis_rpush_def)
    from e[OF g] have "\<forall>a2 w2. end_episode C (self, w, v) = Inr (a2, w2)
            \<longrightarrow> trajectories a2 = trajectories ?s" by blast
    with g t ep True show ?thesis
      by (intro exI[of _ ep] exI[of _ ?s]) simp
  next
    case False
    with f have g: "store_if_enabled C self = Inr self" by (simp add: store_if_enabled_def)
    from e[OF g] have "\<forall>a2 w2. end_episode C (self, w, v) = Inr (a2, w2)
            \<longrightarrow> trajectories a2 = trajectories self" by blast
    with g ep False show ?thesis
      by (intro exI[of _ ep] exI[of _ self]) simp
  qed
qed

text \<open>The stub, one step before the end of an episode in train mode: the episode is pushed.\<close>

theorem completed_episode_pushed_iff_witness:
  "\<exists>self w v ep self'. steps_loop stub_C stub_last_step = Some (Inr (self, w, v))
      \<and> get_complete_episode (buffer self) = Inr ep \<and> store_if_enabled stub_C self = Inr self'
      \<and> trajectories self' = trajectories self @ [serialize stub_C ep]"
proof -
  let ?S = "stub_self\<lparr>buffer := init_with_observation (SamplerBuffer 10000) [0]\<rparr>"
  let ?V = "\<lparr>loc_seed = 0, loc_start_time = 0, loc_step_index = 0, loc_episode_reward = 0,
       loc_episode_reward_orig = 0, loc_done = False\<rparr>"
  from stub_last_step_eval obtain self w v where
    sl: "steps_loop stub_C stub_last_step = Some (Inr (self, w, v))" by blast
  have nd: "\<not> loc_done ?V" by simp
  have rs: "redis_server ?S = Some stub_redis"
    by (simp add: stub_self_def stub_sampler_def new_sampler_def stub_cfg_def)
  have ni: "\<not> infer ?S \<or> force_store ?S"
    by (simp add: stub_self_def stub_sampler_def new_sampler_def stub_cfg_def)
  from completed_episode_pushed_iff[OF sl[unfolded stub_last_step_def] nd rs]
  obtain ep self' where "get_complete_episode (buffer self) = Inr ep"
    "store_if_enabled stub_C self = Inr self'"
    "trajectories self' = trajectories self @ [serialize stub_C ep]
       \<longleftrightarrow> \<not> infer ?S \<or> force_store ?S"
    by (elim exE conjE) (rule that)
  with ni have "get_complete_episode (buffer self) = Inr ep"
    "store_if_enabled stub_C self = Inr self'"
    "trajectories self' = trajectories self @ [serialize stub_C ep]" by simp_all
  with sl show ?thesis by blast
qed

subsection \<open>C3: the weight backends at construction\<close>

text \<open>
  Claim C3, as stated, fails: the construction succeeds with no weight backend and with
  two of them.
\<close>

theorem construction_without_backend_counterexample:
  "\<not> isl (Sampler_init stub_C (stub_cfg\<lparr>cfg_redis_server := None\<rparr>) stub_world)
   \<and> \<not> isl (Sampler_init stub_C (stub_cfg\<lparr>cfg_resume := Some ''ckpt''\<rparr>) stub_world)"
  by (simp add: Sampler_init_def set_global_seeds_def stub_cfg_def stub_C_def)

text \<open>
  Claim C3, amended: the constructor does not look at the weight backends: changing the
  checkpoint path and the server of a configuration changes neither whether the
  construction succeeds nor the error it raises, and of the constructed sampler it changes
  these two attributes only. With no backend, a sampler that has been constructed fails at
  its first weight load, at the start of \<open>run\<close>, with \<open>NotImplementedError\<close>.
\<close>

theorem construction_ignores_backends:
  "Sampler_init C (cfg\<lparr>cfg_resume := p, cfg_redis_server := rs\<rparr>) w
       = map_sum id (\<lambda>(s, w'). (s\<lparr>resume := p, redis_server := rs\<rparr>, w')) (Sampler_init C cfg w)
   \<and> (\<forall>self w1. Sampler_init C cfg w = Inr (self, w1)
          \<and> cfg_resume cfg = None \<and> cfg_redis_server cfg = None
        \<longrightarrow> load_critic_weights C self = Inl NotImplementedError
          \<and> run C self w1 = Some (Inl NotImplementedError)
          \<and> construct_and_run C cfg w = Some (Inl NotImplementedError))"
proof -
  have A: "Sampler_init C (cfg\<lparr>cfg_resume := p, cfg_redis_server := rs\<rparr>) w
       = map_sum id (\<lambda>(s, w'). (s\<lparr>resume := p, redis_server := rs\<rparr>, w')) (Sampler_init C cfg w)"
    by (auto simp: Sampler_init_def new_sampler_def split: sum.splits option.splits prod.splits)
  have B: "load_critic_weights C self = Inl NotImplementedError
          \<and> run C self w1 = Some (Inl NotImplementedError)
          \<and> construct_and_run C cfg w = Some (Inl NotImplementedError)"
    if i: "Sampler_init C cfg w = Inr (self, w1)"
      and n: "cfg_resume cfg = None" "cfg_redis_server cfg = None" for self w1
  proof -
    from Sampler_init_returns(1)[OF i] obtain c lg where "self = new_sampler C cfg c lg" by blast
    with n have "resume self = None" "redis_server self = None"
      by (simp_all add: new_sampler_def)
    then have "load_critic_weights C self = Inl NotImplementedError"
      "run C self w1 = Some (Inl NotImplementedError)"
      by (simp_all add: load_critic_weights_def run_def)
    with i show ?thesis by (simp add: construct_and_run_def)
  qed
  from A B show ?thesis by blast
qed

text \<open>The stub configuration without a backend: constructed, and \<open>run\<close> raises.\<close>

theorem construction_ignores_backends_witness:
  "Sampler_init stub_C (stub_cfg\<lparr>cfg_redis_server := None\<rparr>) stub_world
       = Inr (stub_sampler (stub_cfg\<lparr>cfg_redis_server := None\<rparr>),
              stub_world\<lparr>py_random := 42, np_random := 42\<rparr>)
   \<and> run stub_C (stub_sampler (stub_cfg\<lparr>cfg_redis_server := None\<rparr>))
         (stub_world\<lparr>py_random := 42, np_random := 42\<rparr>) = Some (Inl NotImplementedError)
   \<and> construct_and_run stub_C (stub_cfg\<lparr>cfg_redis_server := None\<rparr>) stub_world
       = Some (Inl NotImplementedError)"
proof -
  let ?c = "stub_cfg\<lparr>cfg_redis_server := None\<rparr>"
  let ?w = "stub_world\<lparr>py_random := 42, np_random := 42\<rparr>"
  have i: "Sampler_init stub_C ?c stub_world = Inr (stub_sampler ?c, ?w)"
    by (simp add: stub_defs run_defs)
  have n: "cfg_resume ?c = None" "cfg_redis_server ?c = None" by (simp_all add: stub_cfg_def)
  from i n have h: "Sampler_init stub_C ?c stub_world = Inr (stub_sampler ?c, ?w)
      \<and> cfg_resume ?c = None \<and> cfg_redis_server ?c = None" by (intro conjI)
  note t = construction_ignores_backends[where C = stub_C and cfg = ?c and w = stub_world
      and p = None and rs = None, THEN conjunct2, THEN spec, THEN spec, THEN mp, OF h]
  from i t[THEN conjunct2] show ?thesis by (intro conjI) simp_all
qed

subsection \<open>C4: the exploration schedule\<close>




subsection \<open>C5: the episode seeds of two runs\<close>



subsection \<open>C6: the two-phase seeding\<close>

text \<open>
  Claim C6. At the entry to an episode (\<open>reset_episode\<close>, lines 156-175 and 236-256) the
  code draws \<open>r\<close> in \<open>[0, SEED_RANGE)\<close> and passes \<open>_seed + r\<close> to
  \<open>set_global_seeds\<close>, as the claim says; but \<open>_seed\<close> is \<open>42 + id\<close> and
  \<open>SEED_RANGE\<close> is \<open>2^32 - 2\<close>, so the sum can exceed \<open>2^32 - 1\<close>, the largest seed
  that numpy accepts: then the first phase raises \<open>ValueError\<close>, no episode seed is
  derived and the environment is not reset. With \<open>id = 0\<close> this happens at the draw
  \<open>2^32 - 3\<close> (the sum is \<open>2^32 + 39\<close>), and the run stops with the error; with
  \<open>id = 2^32 - 43\<close> the constructor's own seed \<open>2^32 - 1\<close> is accepted and the first
  entry raises at the draw 1. (When the entry returns, both phases have run as the claim
  says: lemmas \<open>reseed_returns\<close>, \<open>reseed_ok\<close>, \<open>reset_episode_reseed\<close> and
  \<open>run_reseeds\<close>.)
\<close>

theorem phase_one_seed_exceeds_numpy_range:
  "self_seed stub_self = 42
   \<and> fst (randrange stub_C SEED_RANGE 4294967293) = 2 ^ 32 - 3
   \<and> 0 \<le> fst (randrange stub_C SEED_RANGE 4294967293)
   \<and> fst (randrange stub_C SEED_RANGE 4294967293) < SEED_RANGE
   \<and> set_global_seeds stub_C (self_seed stub_self + fst (randrange stub_C SEED_RANGE 4294967293))
       = Inl ValueError
   \<and> reset_episode stub_C stub_self (stub_world\<lparr>py_random := 4294967293\<rparr>) = Inl ValueError
   \<and> run stub_C stub_self (stub_world\<lparr>py_random := 4294967293\<rparr>) = Some (Inl ValueError)
   \<and> \<not> isl (Sampler_init stub_C (stub_cfg\<lparr>cfg_id := 2 ^ 32 - 43\<rparr>) stub_world)
   \<and> construct_and_run stub_C (stub_cfg\<lparr>cfg_id := 2 ^ 32 - 43\<rparr>) stub_world
       = Some (Inl ValueError)"
  by (simp add: stub_defs run_defs)

subsection \<open>C7: a failing load from the shared store\<close>

text \<open>
  Claim C7, as stated, fails: the key \<open>p_weights\<close> is absent from the stub store and the
  load through the shared store succeeds: the key that is read is
  \<open>p_critic_weights\<close>.
\<close>

theorem weights_key_counterexample:
  "resume stub_self = None
   \<and> redis_server stub_self = Some stub_redis
   \<and> redis_get stub_redis (redis_prefix stub_self @ ''_weights'') = None
   \<and> load_critic_weights stub_C stub_self
       = Inr (stub_self\<lparr>critic := \<lparr>state_dict = [(''fc'', [1])], training = False\<rparr>\<rparr>)"
  by (simp add: stub_defs new_sampler_def load_critic_weights_def load_state_dict_def
      eval_mode_def redis_get_def)

text \<open>
  Claim C7, amended: a load through the shared store (no checkpoint path) reads the key
  \<open>{prefix}_critic_weights\<close> and no other: when the deserializer fails on what \<open>get\<close>
  returns for it (\<open>None\<close> when the key is absent), the load fails with the
  deserializer's own error, unchanged. The sampler has no exception of its own for this.
\<close>

theorem shared_store_load_error:
  assumes "resume self = None" and "redis_server self = Some r"
  shows "(\<forall>e. deserialize C (redis_get r (redis_prefix self @ ''_critic_weights'')) = Inl e
            \<longrightarrow> load_critic_weights C self = Inl e)
     \<and> (\<forall>r'. redis_get r' (redis_prefix self @ ''_critic_weights'')
                = redis_get r (redis_prefix self @ ''_critic_weights'')
            \<longrightarrow> load_critic_weights C (self\<lparr>redis_server := Some r'\<rparr>)
                = map_sum id (\<lambda>s. s\<lparr>redis_server := Some r'\<rparr>) (load_critic_weights C self))"
  using assms
  by (auto simp: load_critic_weights_def split: sum.splits)

text \<open>The stub with an empty store: the codec's error for a missing value comes out.\<close>

theorem shared_store_load_error_witness:
  "resume stub_empty_store = None
   \<and> redis_server stub_empty_store = Some (stub_redis\<lparr>kv := (\<lambda>k. None)\<rparr>)
   \<and> load_critic_weights stub_C stub_empty_store = Inl (OtherError ''TypeError'')"
proof -
  have a: "resume stub_empty_store = None"
    and b: "redis_server stub_empty_store = Some (stub_redis\<lparr>kv := (\<lambda>k. None)\<rparr>)"
    by (simp_all add: stub_defs new_sampler_def)
  have d: "deserialize stub_C (redis_get (stub_redis\<lparr>kv := (\<lambda>k. None)\<rparr>)
        (redis_prefix stub_empty_store @ ''_critic_weights'')) = Inl (OtherError ''TypeError'')"
    by (simp add: stub_defs redis_get_def)
  from shared_store_load_error[OF a b, where C = stub_C, THEN conjunct1, THEN spec, THEN mp, OF d]
  have "load_critic_weights stub_C stub_empty_store = Inl (OtherError ''TypeError'')" .
  with a b show ?thesis by (intro conjI)
qed

subsection \<open>C8: what a successful load installs\<close>

text \<open>
  Claim C8. After a successful load the critic is in evaluation mode and its named
  parameters are exactly the fetched ones: the mapping under \<open>critic_state_dict\<close> of the
  checkpoint, or every entry of the deserialized mapping, each value converted by
  \<open>to_tensor\<close>; nothing else of the sampler changes.
\<close>

theorem load_installs_all_weights_in_eval_mode:
  assumes "load_critic_weights C self = Inr self'"
  shows "\<not> training (critic self')
     \<and> (case resume self of
          Some p \<Rightarrow>
            (\<exists>ck. load_checkpoint C p = Inr ck
               \<and> map_of ck ''critic_state_dict'' = Some (state_dict (critic self')))
        | None \<Rightarrow>
            (\<exists>r ws. redis_server self = Some r
               \<and> deserialize C (redis_get r (redis_prefix self @ ''_critic_weights'')) = Inr ws
               \<and> state_dict (critic self') = map (\<lambda>(k, v). (k, to_tensor C v)) ws))
     \<and> self' = self\<lparr>critic := critic self'\<rparr>"
  using assms
  by (auto simp: load_critic_weights_def load_state_dict_def eval_mode_def split: option.splits sum.splits if_splits)

text \<open>The stub: the load from the store installs the stored parameters.\<close>

theorem load_installs_all_weights_in_eval_mode_witness:
  "load_critic_weights stub_C stub_self
       = Inr (stub_self\<lparr>critic := \<lparr>state_dict = [(''fc'', [1])], training = False\<rparr>\<rparr>)
   \<and> \<not> training (critic (stub_self\<lparr>critic := \<lparr>state_dict = [(''fc'', [1])], training = False\<rparr>\<rparr>))"
proof -
  have l: "load_critic_weights stub_C stub_self
       = Inr (stub_self\<lparr>critic := \<lparr>state_dict = [(''fc'', [1])], training = False\<rparr>\<rparr>)"
    by (simp add: stub_defs new_sampler_def load_critic_weights_def load_state_dict_def
        eval_mode_def redis_get_def)
  from l load_installs_all_weights_in_eval_mode[OF l, THEN conjunct1]
  show ?thesis by (rule conjI)
qed

subsection \<open>C9: storing without a server\<close>

text \<open>
  Claim C9. When \<open>redis_server\<close> is \<open>None\<close>, \<open>store_episode\<close> returns normally and
  changes nothing, and so do lines 191-192 in every mode and with \<open>force_store\<close>; a run
  that returns still has no server, and has pushed nothing.
\<close>

theorem no_server_drops_every_episode:
  assumes n: "redis_server self = None"
  shows "store_episode C self = Inr self \<and> store_if_enabled C self = Inr self
     \<and> (\<forall>self' w'. run C self w = Some (Inr (self', w')) \<longrightarrow>
           redis_server self' = None \<and> trajectories self' = [])"
proof -
  have "redis_server self' = None \<and> trajectories self' = []"
    if "run C self w = Some (Inr (self', w'))" for self' w'
    using run_no_server[OF that n] by (simp add: trajectories_def)
  with n show ?thesis by (simp add: store_episode_def store_if_enabled_def)
qed

text \<open>The stub in train mode with a checkpoint and no server, holding a complete episode.\<close>

theorem no_server_drops_every_episode_witness:
  "redis_server (stub_ckpt_only\<lparr>buffer := stub_episode_buffer\<rparr>) = None
   \<and> \<not> infer (stub_ckpt_only\<lparr>buffer := stub_episode_buffer\<rparr>)
   \<and> store_if_enabled stub_C (stub_ckpt_only\<lparr>buffer := stub_episode_buffer\<rparr>)
       = Inr (stub_ckpt_only\<lparr>buffer := stub_episode_buffer\<rparr>)"
proof -
  have n: "redis_server (stub_ckpt_only\<lparr>buffer := stub_episode_buffer\<rparr>) = None"
    and i: "\<not> infer (stub_ckpt_only\<lparr>buffer := stub_episode_buffer\<rparr>)"
    by (simp_all add: stub_defs new_sampler_def)
  from no_server_drops_every_episode[OF n, where C = stub_C and w = stub_world,
      THEN conjunct2, THEN conjunct1]
  have "store_if_enabled stub_C (stub_ckpt_only\<lparr>buffer := stub_episode_buffer\<rparr>)
       = Inr (stub_ckpt_only\<lparr>buffer := stub_episode_buffer\<rparr>)" .
  with n i show ?thesis by (intro conjI)
qed

subsection \<open>C10: a checkpoint and a server together\<close>

text \<open>
  Claim C10. When a checkpoint path is configured, the outcome of a load does not depend
  on the server: it is the same for every value of \<open>redis_server\<close>, \<open>None\<close> included;
  and when the checkpoint is read, holds the entry \<open>critic_state_dict\<close> and
  \<open>load_state_dict\<close> accepts it, the load raises no error and installs it.
\<close>

theorem checkpoint_takes_precedence:
  assumes "resume self = Some p"
  shows "load_critic_weights C (self\<lparr>redis_server := rs\<rparr>)
           = map_sum id (\<lambda>s. s\<lparr>redis_server := rs\<rparr>) (load_critic_weights C self)
     \<and> (\<forall>ck ws c. load_checkpoint C p = Inr ck \<and> map_of ck ''critic_state_dict'' = Some ws
            \<and> load_state_dict (critic self) ws = Inr c
          \<longrightarrow> load_critic_weights C self = Inr (self\<lparr>critic := eval_mode c\<rparr>))"
  using assms
  by (auto simp: load_critic_weights_def split: option.splits sum.splits)

text \<open>The stub with both backends: the checkpoint's parameters are installed.\<close>

theorem checkpoint_takes_precedence_witness:
  "resume stub_both = Some ''ckpt''
   \<and> redis_server stub_both = Some stub_redis
   \<and> load_critic_weights stub_C stub_both
       = Inr (stub_both\<lparr>critic := \<lparr>state_dict = [(''fc'', [2])], training = False\<rparr>\<rparr>)
   \<and> load_critic_weights stub_C (stub_both\<lparr>redis_server := None\<rparr>)
       = Inr (stub_both\<lparr>critic := \<lparr>state_dict = [(''fc'', [2])], training = False\<rparr>,
                        redis_server := None\<rparr>)"
proof -
  have r: "resume stub_both = Some ''ckpt''" and s: "redis_server stub_both = Some stub_redis"
    by (simp_all add: stub_defs new_sampler_def)
  note t = checkpoint_takes_precedence[OF r, where C = stub_C and rs = None]
  have c: "load_checkpoint stub_C ''ckpt'' = Inr [(''critic_state_dict'', [(''fc'', [2])])]
     \<and> map_of [(''critic_state_dict'', [(''fc'', [2 :: real])])] ''critic_state_dict''
         = Some [(''fc'', [2])]
     \<and> load_state_dict (critic stub_both) [(''fc'', [2])]
         = Inr \<lparr>state_dict = [(''fc'', [2])], training = True\<rparr>"
    by (simp add: stub_defs new_sampler_def load_state_dict_def)
  from t[THEN conjunct2, THEN spec, THEN spec, THEN spec, THEN mp, OF c]
  have l: "load_critic_weights stub_C stub_both
      = Inr (stub_both\<lparr>critic := \<lparr>state_dict = [(''fc'', [2])], training = False\<rparr>\<rparr>)"
    by (simp add: eval_mode_def)
  from t[THEN conjunct1]
  have "load_critic_weights stub_C (stub_both\<lparr>redis_server := None\<rparr>)
      = Inr (stub_both\<lparr>critic := \<lparr>state_dict = [(''fc'', [2])], training = False\<rparr>,
                       redis_server := None\<rparr>)" by (simp add: l)
  with r s l show ?thesis by (intro conjI)
qed

end
